theory Spec2Isabelle
  imports Complex_Main "HOL-Library.AList" "HOL-Library.Code_Target_Nat"
begin

section \<open>Strings and the built-ins of Python\<close>

text \<open>
  A Python string is a sequence of Unicode code points: a list of natural numbers. \<open>uni\<close>
  reads an ASCII literal as such a string.
\<close>

type_synonym pystr = "nat list"

definition uni :: "string \<Rightarrow> pystr" where
  "uni s = map of_char s"

text \<open>
  The program uses built-ins of Python whose tables are not part of it. They are parameters
  of the model, so that every theorem holds for Python's own:
  \<^item> \<open>re_digit\<close>: the code points the pattern \<open>\d\<close> matches (every Unicode decimal digit);
  \<^item> \<open>isspace\<close>: the code points \<open>str.strip()\<close> removes (every Unicode white space);
  \<^item> \<open>str_lower\<close>: \<open>str.lower()\<close>, a function of the whole string;
  \<^item> \<open>to_float\<close>: \<open>float()\<close> on the text the pattern of \<open>parse_price\<close> matched;
  \<^item> \<open>format_2f\<close> and \<open>to_str\<close>: the formats \<open>{:.2f}\<close> and \<open>{}\<close> of an f-string.

  The type \<open>'f\<close> stands for the numbers of Python that the program compares: floats, and the
  numbers of the configuration, with their order (not-a-number left aside).
\<close>

record 'f python =
  re_digit :: "nat \<Rightarrow> bool"
  isspace :: "nat \<Rightarrow> bool"
  str_lower :: "pystr \<Rightarrow> pystr"
  to_float :: "pystr \<Rightarrow> 'f"
  format_2f :: "'f \<Rightarrow> pystr"
  to_str :: "'f \<Rightarrow> pystr"

text \<open>\<open>s.strip()\<close>\<close>

definition strip :: "'f python \<Rightarrow> pystr \<Rightarrow> pystr" where
  "strip py s = rev (dropWhile (isspace py) (rev (dropWhile (isspace py) s)))"

text \<open>\<open>s.startswith(p)\<close>\<close>

fun startswith :: "pystr \<Rightarrow> pystr \<Rightarrow> bool" where
  "startswith s [] = True"
| "startswith [] (p # ps) = False"
| "startswith (c # cs) (p # ps) = (c = p \<and> startswith cs ps)"

text \<open>\<open>p in s\<close> on strings: \<open>p\<close> occurs in \<open>s\<close> as a contiguous run.\<close>

fun str_in :: "pystr \<Rightarrow> pystr \<Rightarrow> bool" where
  "str_in p [] = (p = [])"
| "str_in p (c # cs) = (startswith (c # cs) p \<or> str_in p cs)"

text \<open>\<open>s.split("\n")\<close>: the pieces between line feeds; never an empty list.\<close>

fun split_nl :: "pystr \<Rightarrow> pystr list" where
  "split_nl [] = [[]]"
| "split_nl (c # cs) =
     (if c = 10 then [] # split_nl cs
      else (case split_nl cs of [] \<Rightarrow> [[c]] | l # ls \<Rightarrow> (c # l) # ls))"

text \<open>\<open>sep.join(parts)\<close>\<close>

fun join :: "pystr \<Rightarrow> pystr list \<Rightarrow> pystr" where
  "join sep [] = []"
| "join sep [p] = p"
| "join sep (p # q # ps) = p @ sep @ join sep (q # ps)"

text \<open>The euro sign U+20AC and the emoji U+1F3AF of the alert message.\<close>

definition euro :: pystr where
  "euro = [0x20AC]"

definition target_emoji :: pystr where
  "target_emoji = [0x1F3AF]"

section \<open>Price Text Parser\<close>

text \<open>
  \<^verbatim>\<open>
  def parse_price(raw: str) -> float | None:
      normalized = raw.replace(",", ".")
      match = re.search(r"(\d+(?:\.\d+)?)", normalized)
      if match:
          return float(match.group(1))
      return None
  \<close>
  The search starts its match at the first digit; \<open>\d+\<close> is greedy, and the optional
  group is taken whenever a full stop and at least one digit follow. The comma is code
  point 44 and the full stop 46.
\<close>

text \<open>\<open>raw.replace(",", ".")\<close>, character by character.\<close>

definition comma_to_dot :: "nat \<Rightarrow> nat" where
  "comma_to_dot c = (if c = 44 then 46 else c)"

definition parse_price :: "'f python \<Rightarrow> pystr \<Rightarrow> 'f option" where
  "parse_price py raw =
     (let normalized = map comma_to_dot raw;
          rest = dropWhile (\<lambda>c. \<not> re_digit py c) normalized
      in if rest = [] then None
         else
           let ip = takeWhile (re_digit py) rest;
               after = dropWhile (re_digit py) rest
           in (case after of
                 [] \<Rightarrow> Some (to_float py ip)
               | d # t \<Rightarrow>
                   if d = 46 \<and> takeWhile (re_digit py) t \<noteq> []
                   then Some (to_float py (ip @ 46 # takeWhile (re_digit py) t))
                   else Some (to_float py ip)))"

section \<open>Data model\<close>

text \<open>
  One entry of the \<open>alerts\<close> list of \<open>config.json\<close>: a dictionary in which either key may
  be missing (\<open>None\<close>). A key that is present carries a value of the type the configuration
  editor writes: a string for \<open>pet_name\<close>, a number for \<open>target_price\<close>.
\<close>

record 'f alert =
  pet_name :: "pystr option"
  target_price :: "'f option"

text \<open>One found item, the dictionary \<open>found_item\<close> of \<open>hunt\<close>.\<close>

record 'f item =
  timestamp :: pystr
  pet_name :: pystr
  price_eur :: 'f

text \<open>
  Exceptions: a failure of the page driver inside the \<open>try\<close> block, \<open>KeyError\<close> with the
  missing key, and \<open>NameError\<close> with the undefined name.
\<close>

datatype exn = PageError string | KeyError pystr | NameError string

section \<open>Listing Text Classifier\<close>

definition currency_symbols :: "pystr list" where
  "currency_symbols = [uni ''$'', euro, uni ''EUR'', uni ''USD'']"

text \<open>\<open>any(sym in line for sym in currency_symbols)\<close>\<close>

definition has_currency :: "pystr \<Rightarrow> bool" where
  "has_currency line = list_ex (\<lambda>sym. str_in sym line) currency_symbols"

text \<open>\<open>re.search(r"\d", line)\<close>\<close>

definition has_digit :: "'f python \<Rightarrow> pystr \<Rightarrow> bool" where
  "has_digit py line = list_ex (re_digit py) line"

text \<open>\<open>[l.strip() for l in raw.split("\n") if l.strip()]\<close>\<close>

definition card_lines :: "'f python \<Rightarrow> pystr \<Rightarrow> pystr list" where
  "card_lines py raw = map (strip py) (filter (\<lambda>l. strip py l \<noteq> []) (split_nl raw))"

text \<open>
  The condition of the \<open>if\<close> in the loop over the lines:
  \<open>has_currency or (re.search(r"\d", line) and line == lines[-1])\<close>. The comparison with
  \<open>lines[-1]\<close> is by value.
\<close>

definition is_price_line :: "'f python \<Rightarrow> pystr list \<Rightarrow> pystr \<Rightarrow> bool" where
  "is_price_line py lines line =
     (has_currency line \<or> (has_digit py line \<and> line = last lines))"

text \<open>
  \<^verbatim>\<open>
  for line in lines:
      has_currency = any(sym in line for sym in currency_symbols)
      if has_currency or (re.search(r"\d", line) and line == lines[-1]):
          price_line = line
      else:
          name_parts.append(line)
  \<close>
  The state is \<open>(price_line, name_parts)\<close>.
\<close>

fun classify_loop ::
  "'f python \<Rightarrow> pystr list \<Rightarrow> pystr list \<Rightarrow> pystr option \<times> pystr list
     \<Rightarrow> pystr option \<times> pystr list"
where
  "classify_loop py lines [] st = st"
| "classify_loop py lines (line # rest) (price_line, name_parts) =
     (if is_price_line py lines line
      then classify_loop py lines rest (Some line, name_parts)
      else classify_loop py lines rest (price_line, name_parts @ [line]))"

text \<open>
  The body of \<open>for raw in raw_items\<close> up to the construction of \<open>found_item\<close>; \<open>None\<close> is
  one of the three \<open>continue\<close> statements.
\<close>

definition classify_card :: "'f python \<Rightarrow> pystr \<Rightarrow> pystr \<Rightarrow> 'f item option" where
  "classify_card py ts raw =
     (let lines = card_lines py raw
      in if length lines < 2 then None
         else (case classify_loop py lines lines (None, []) of
                 (None, name_parts) \<Rightarrow> None
               | (Some price_line, name_parts) \<Rightarrow>
                   (case parse_price py price_line of
                      None \<Rightarrow> None
                    | Some price \<Rightarrow>
                        Some \<lparr>timestamp = ts, pet_name = join (uni '' '') name_parts,
                              price_eur = price\<rparr>)))"

text \<open>
  The loop over \<open>raw_items\<close>; the state is \<open>(all_found_items, hunt_count)\<close>.
\<close>

fun cards_loop ::
  "'f python \<Rightarrow> pystr \<Rightarrow> pystr list \<Rightarrow> 'f item list \<times> nat \<Rightarrow> 'f item list \<times> nat"
where
  "cards_loop py ts [] st = st"
| "cards_loop py ts (raw # raws) (all_found_items, hunt_count) =
     (case classify_card py ts raw of
        None \<Rightarrow> cards_loop py ts raws (all_found_items, hunt_count)
      | Some found_item \<Rightarrow>
          cards_loop py ts raws (all_found_items @ [found_item], hunt_count + 1))"

section \<open>Hunt Orchestrator\<close>

text \<open>The lines \<open>hunt\<close> prints for each target.\<close>

datatype 'f report =
    Hunting pystr "'f option"
  | No_results pystr
  | Found nat
  | Failed pystr exn

text \<open>
  The page driver is outside the program. The loop over the alerts is given, for each
  configuration entry, the outcome its search would have: \<open>Inl e\<close> when an operation of the
  \<open>try\<close> block up to and including \<open>page.evaluate\<close> raises \<open>e\<close> (an \<open>Exception\<close>), and
  \<open>Inr raw_items\<close> when \<open>page.evaluate\<close> returns \<open>raw_items\<close>.
\<close>

type_synonym outcome = "exn + pystr list"

text \<open>
  \<^verbatim>\<open>
  for alert in alerts:
      pet_name = alert.get("pet_name", "").strip()
      target_price = alert.get("target_price")
      if not pet_name:
          continue
      print(f"\n[>] Hunting for: {pet_name} (Target <= {target_price})")
      try:
          ... raw_items = page.evaluate(...)
          hunt_count = 0
          for raw in raw_items: ...
          if hunt_count == 0: print(... No results found ...)
          else: print(... Found {hunt_count} listings.)
      except Exception as e:
          print(f"  [ERR] Failed hunting '{pet_name}': {e}")
  \<close>
  The state is \<open>all_found_items\<close> and the lines printed so far.
\<close>

fun hunt_loop ::
  "'f python \<Rightarrow> pystr \<Rightarrow> ('f alert \<times> outcome) list \<Rightarrow> 'f item list \<times> 'f report list
     \<Rightarrow> 'f item list \<times> 'f report list"
where
  "hunt_loop py ts [] st = st"
| "hunt_loop py ts ((alert, outcome) # rest) (all_found_items, out) =
     (let pet_name = strip py (case alert.pet_name alert of None \<Rightarrow> [] | Some s \<Rightarrow> s);
          target_price = target_price alert
      in if pet_name = [] then hunt_loop py ts rest (all_found_items, out)
         else
           (case outcome of
              Inl e \<Rightarrow>
                hunt_loop py ts rest
                  (all_found_items, out @ [Hunting pet_name target_price, Failed pet_name e])
            | Inr raw_items \<Rightarrow>
                (case cards_loop py ts raw_items (all_found_items, 0) of
                   (found, hunt_count) \<Rightarrow>
                     hunt_loop py ts rest
                       (found,
                        out @ [Hunting pet_name target_price,
                               if hunt_count = 0 then No_results pet_name
                               else Found hunt_count]))))"



section \<open>Target Matcher\<close>

text \<open>
  A Python dictionary keeps its keys in the order of their first insertion, and a later
  assignment to a key replaces the value in place: \<^const>\<open>AList.update\<close> on an association
  list.

  \<open>{a['pet_name'].strip(): a['target_price'] for a in alerts if 'pet_name' in a}\<close>: the key
  is evaluated before the value, and a missing \<open>target_price\<close> raises \<open>KeyError\<close>.
\<close>

fun target_pets_of ::
  "'f python \<Rightarrow> 'f alert list \<Rightarrow> (pystr \<times> 'f) list \<Rightarrow> exn + (pystr \<times> 'f) list"
where
  "target_pets_of py [] target_pets = Inr target_pets"
| "target_pets_of py (a # as) target_pets =
     (case alert.pet_name a of
        None \<Rightarrow> target_pets_of py as target_pets
      | Some n \<Rightarrow>
          (case target_price a of
             None \<Rightarrow> Inl (KeyError (uni ''target_price''))
           | Some p \<Rightarrow> target_pets_of py as (AList.update (strip py n) p target_pets)))"

text \<open>
  \<^verbatim>\<open>
  for target_name in target_pets:
      if target_name.lower() in name.lower():
          matching_target = target_name
          break
  \<close>
\<close>

fun fallback :: "'f python \<Rightarrow> pystr list \<Rightarrow> pystr \<Rightarrow> pystr option" where
  "fallback py [] name = None"
| "fallback py (target_name # rest) name =
     (if str_in (str_lower py target_name) (str_lower py name) then Some target_name
      else fallback py rest name)"

text \<open>The value of \<open>matching_target\<close> after the \<open>if name in target_pets: ... else: ...\<close>.\<close>

definition match_target :: "'f python \<Rightarrow> (pystr \<times> 'f) list \<Rightarrow> pystr \<Rightarrow> pystr option" where
  "match_target py target_pets name =
     (if name \<in> set (map fst target_pets) then Some name
      else fallback py (map fst target_pets) name)"

text \<open>
  \<^verbatim>\<open>
  for item in items:
      name = item['pet_name']
      price = item['price_eur']
      matching_target = None
      ...
      if matching_target:
          max_allowed = target_pets[matching_target]
          if price <= max_allowed:
              if name not in filtered_results or price < filtered_results[name]['price_eur']:
                  filtered_results[name] = item
  \<close>
  The state is \<open>filtered_results\<close> and the variable \<open>matching_target\<close>, which outlives the
  loop. An empty string is false in \<open>if matching_target\<close>.
\<close>

fun filter_loop ::
  "('f::linorder) python \<Rightarrow> (pystr \<times> 'f) list \<Rightarrow> 'f item list
     \<Rightarrow> (pystr \<times> 'f item) list \<times> pystr option
     \<Rightarrow> exn + (pystr \<times> 'f item) list \<times> pystr option"
where
  "filter_loop py target_pets [] st = Inr st"
| "filter_loop py target_pets (item # rest) (filtered_results, previous) =
     (let name = pet_name item;
          price = price_eur item;
          matching_target = match_target py target_pets name
      in case matching_target of
           None \<Rightarrow> filter_loop py target_pets rest (filtered_results, matching_target)
         | Some t \<Rightarrow>
             if t = [] then filter_loop py target_pets rest (filtered_results, matching_target)
             else
               (case map_of target_pets t of
                  None \<Rightarrow> Inl (KeyError t)
                | Some max_allowed \<Rightarrow>
                    if price \<le> max_allowed
                    then
                      (case map_of filtered_results name of
                         None \<Rightarrow>
                           filter_loop py target_pets rest
                             (AList.update name item filtered_results, matching_target)
                       | Some best \<Rightarrow>
                           if price < price_eur best
                           then filter_loop py target_pets rest
                                  (AList.update name item filtered_results, matching_target)
                           else filter_loop py target_pets rest
                                  (filtered_results, matching_target))
                    else filter_loop py target_pets rest
                           (filtered_results, matching_target)))"

text \<open>
  A listing qualifies when it has a matching target and its price does not exceed that
  target's maximum.
\<close>

definition qualifies :: "('f::linorder) python \<Rightarrow> (pystr \<times> 'f) list \<Rightarrow> 'f item \<Rightarrow> bool" where
  "qualifies py target_pets item =
     (case match_target py target_pets (pet_name item) of
        None \<Rightarrow> False
      | Some t \<Rightarrow>
          (case map_of target_pets t of
             None \<Rightarrow> False
           | Some max_allowed \<Rightarrow> price_eur item \<le> max_allowed))"

text \<open>
  One pass of the loop body on \<open>filtered_results\<close>: the item replaces the entry of its name
  when it qualifies, its matching target is a true value, and it is cheaper than the entry.
\<close>

definition keep_best ::
  "('f::linorder) python \<Rightarrow> (pystr \<times> 'f) list \<Rightarrow> (pystr \<times> 'f item) list \<Rightarrow> 'f item
     \<Rightarrow> (pystr \<times> 'f item) list"
where
  "keep_best py target_pets filtered_results item =
     (if qualifies py target_pets item
         \<and> match_target py target_pets (pet_name item) \<noteq> Some []
         \<and> (case map_of filtered_results (pet_name item) of
                None \<Rightarrow> True
              | Some best \<Rightarrow> price_eur item < price_eur best)
      then AList.update (pet_name item) item filtered_results
      else filtered_results)"

text \<open>The trimmed names of the entries that have a \<open>pet_name\<close>, in configured order.\<close>

definition target_names :: "'f python \<Rightarrow> 'f alert list \<Rightarrow> pystr list" where
  "target_names py alerts =
     List.map_filter (\<lambda>a. map_option (strip py) (alert.pet_name a)) alerts"



text \<open>The lines of a card put together again, one line feed between two lines.\<close>

definition card_text :: "pystr list \<Rightarrow> pystr" where
  "card_text lines = join [10] lines"

section \<open>Notification\<close>

text \<open>
  \<^verbatim>\<open>
  msg = f"<emoji> FOUND: {pet_name} for {price:.2f}<euro>! (Target <= {target_pets.get(
          pet_name, target_pets.get(matching_target, 'N/A'))}<euro>)"
  \<close>
  The variable \<open>matching_target\<close> is the one the loop over the items left behind; the key
  \<open>pet_name\<close> of \<open>filtered_results\<close> is written \<open>name\<close> here.
\<close>

definition shown_target ::
  "'f python \<Rightarrow> (pystr \<times> 'f) list \<Rightarrow> pystr option \<Rightarrow> pystr \<Rightarrow> pystr"
where
  "shown_target py target_pets matching_target name =
     (case map_of target_pets name of
        Some m \<Rightarrow> to_str py m
      | None \<Rightarrow>
          (case matching_target of
             None \<Rightarrow> uni ''N/A''
           | Some t \<Rightarrow>
               (case map_of target_pets t of None \<Rightarrow> uni ''N/A'' | Some m \<Rightarrow> to_str py m)))"

definition alert_msg ::
  "'f python \<Rightarrow> (pystr \<times> 'f) list \<Rightarrow> pystr option \<Rightarrow> pystr \<times> 'f item \<Rightarrow> pystr"
where
  "alert_msg py target_pets matching_target entry =
     (case entry of
        (name, best_deal) \<Rightarrow>
          target_emoji @ uni '' FOUND: '' @ name @ uni '' for ''
            @ format_2f py (price_eur best_deal) @ euro @ uni ''! (Target <= ''
            @ shown_target py target_pets matching_target name @ euro @ uni '')'')"

text \<open>
  \<^verbatim>\<open>
  for pet_name, best_deal in filtered_results.items():
      ...
      send_alert(msg)
  \<close>
  The messages handed to \<open>send_alert\<close>, in order.
\<close>

definition send_alerts ::
  "'f python \<Rightarrow> (pystr \<times> 'f) list \<Rightarrow> pystr option \<Rightarrow> (pystr \<times> 'f item) list \<Rightarrow> pystr list"
where
  "send_alerts py target_pets matching_target filtered_results =
     map (alert_msg py target_pets matching_target) filtered_results"

section \<open>History Logger\<close>

text \<open>
  The history file is \<open>None\<close> when it does not exist and otherwise the rows it holds; a file
  of size zero holds no row.
\<close>

datatype 'f row = Header | Row pystr pystr 'f

text \<open>
  \<^verbatim>\<open>
  def append_to_csv(items):
      if not items:
          return
      file_exists = CSV_PATH.exists() and CSV_PATH.stat().st_size > 0
      with open(CSV_PATH, "a", newline="", encoding="utf-8") as f:
          writer = csv.writer(f)
          if not file_exists:
              writer.writerow(["timestamp", "pet_name", "price_eur"])
          for item in items:
              writer.writerow([item["timestamp"], item["pet_name"], item["price_eur"]])
  \<close>
\<close>

text \<open>\<open>[item["timestamp"], item["pet_name"], item["price_eur"]]\<close>\<close>

definition row_of :: "'f item \<Rightarrow> 'f row" where
  "row_of item = Row (timestamp item) (pet_name item) (price_eur item)"

definition append_to_csv :: "'f item list \<Rightarrow> 'f row list option \<Rightarrow> 'f row list option" where
  "append_to_csv items csv =
     (if items = [] then csv
      else
        let file_exists = (case csv of None \<Rightarrow> False | Some rows \<Rightarrow> rows \<noteq> []);
            old = (case csv of None \<Rightarrow> [] | Some rows \<Rightarrow> rows)
        in Some (old @ (if file_exists then [] else [Header])
                   @ map row_of items))"

text \<open>Successive runs, each appending the listings it produced.\<close>

fun append_runs :: "'f item list list \<Rightarrow> 'f row list option \<Rightarrow> 'f row list option" where
  "append_runs [] csv = csv"
| "append_runs (items # runs) csv = append_runs runs (append_to_csv items csv)"

section \<open>Main\<close>


section \<open>The built-ins on the inputs of the examples\<close>

text \<open>
  The examples are ASCII texts. On ASCII text Python's built-ins are these: the digits \<open>0\<close>
  to \<open>9\<close>, the ASCII white space, and the lower case of \<open>A\<close> to \<open>Z\<close>. \<open>float()\<close> reads a
  decimal numeral as the double nearest to its value, a tie going to the even significand
  (for numerals below the largest double); a double is given as the rational it holds. The
  two formats are decimal renderings of that rational: with two digits after the point,
  rounded half to even, and, for a number with a short decimal expansion, with all its digits
  and at least one after the point.
\<close>

definition ascii_digit :: "nat \<Rightarrow> bool" where
  "ascii_digit c = (48 \<le> c \<and> c \<le> 57)"

definition ascii_space :: "nat \<Rightarrow> bool" where
  "ascii_space c = ((9 \<le> c \<and> c \<le> 13) \<or> (28 \<le> c \<and> c \<le> 32))"

definition ascii_lower :: "pystr \<Rightarrow> pystr" where
  "ascii_lower s = map (\<lambda>c. if 65 \<le> c \<and> c \<le> 90 then c + 32 else c) s"

text \<open>The value of a run of decimal digits, and of a numeral \<open>digits\<close> or \<open>digits.digits\<close>.\<close>

definition dec :: "pystr \<Rightarrow> nat" where
  "dec ds = foldl (\<lambda>n c. 10 * n + (c - 48)) 0 ds"

definition decimal :: "pystr \<Rightarrow> rat" where
  "decimal token =
     (let ip = takeWhile (\<lambda>c. c \<noteq> 46) token;
          fp = drop 1 (dropWhile (\<lambda>c. c \<noteq> 46) token)
      in of_nat (dec ip) + of_nat (dec fp) / 10 ^ length fp)"

fun show_nat :: "nat \<Rightarrow> pystr" where
  "show_nat n =
     (if n < 10 then [48 + n] else show_nat (n div 10) @ [48 + n mod 10])"

definition round_half_even :: "rat \<Rightarrow> nat" where
  "round_half_even x =
     (let f = nat \<lfloor>x\<rfloor>; r = x - of_nat f
      in if r < 1 / 2 then f else if 1 / 2 < r then f + 1 else if even f then f else f + 1)"

text \<open>
  The number of binary digits of a natural number, the powers of two, and the rounding of
  a positive rational to a double: 53 binary digits in the normal range, steps of
  \<open>2 ^ -1074\<close> below it.
\<close>

fun bits :: "nat \<Rightarrow> nat" where
  "bits n = (if n = 0 then 0 else 1 + bits (n div 2))"

definition pow2 :: "int \<Rightarrow> rat" where
  "pow2 k = (if 0 \<le> k then 2 ^ nat k else 1 / 2 ^ nat (- k))"

definition to_double :: "rat \<Rightarrow> rat" where
  "to_double x =
     (if x \<le> 0 then 0
      else
        let k = int (bits (nat (fst (quotient_of x)))) - int (bits (nat (snd (quotient_of x))));
            e = (if pow2 k \<le> x then k else k - 1);
            ulp = pow2 (max e (- 1022) - 52)
        in of_nat (round_half_even (x / ulp)) * ulp)"

definition show_2f :: "rat \<Rightarrow> pystr" where
  "show_2f x =
     (let c = round_half_even (x * 100)
      in show_nat (c div 100) @ [46, 48 + (c div 10) mod 10, 48 + c mod 10])"

fun frac_digits :: "nat \<Rightarrow> rat \<Rightarrow> pystr" where
  "frac_digits 0 r = []"
| "frac_digits (Suc k) r =
     (if r = 0 then []
      else let d = nat \<lfloor>r * 10\<rfloor> in (48 + d) # frac_digits k (r * 10 - of_nat d))"

definition show_float :: "rat \<Rightarrow> pystr" where
  "show_float x =
     (let f = nat \<lfloor>x\<rfloor>; r = x - of_nat f
      in show_nat f @ [46] @ (if r = 0 then [48] else frac_digits 17 r))"

definition ascii :: "rat python" where
  "ascii = \<lparr>re_digit = ascii_digit, isspace = ascii_space, str_lower = ascii_lower,
            to_float = (\<lambda>token. to_double (decimal token)),
            format_2f = show_2f, to_str = show_float\<rparr>"

text \<open>A configuration entry with both keys, a time stamp, and a listing of the run.\<close>

definition target :: "string \<Rightarrow> rat \<Rightarrow> rat alert" where
  "target n p = \<lparr>alert.pet_name = Some (uni n), target_price = Some p\<rparr>"

definition now :: pystr where
  "now = uni ''2026-01-01 00:00:00''"

definition listing :: "string \<Rightarrow> rat \<Rightarrow> rat item" where
  "listing n p = \<lparr>timestamp = now, pet_name = uni n, price_eur = p\<rparr>"

definition card_with :: "string list \<Rightarrow> pystr" where
  "card_with lines = card_text (map uni lines)"

section \<open>The price parser recovers decimal prices\<close>

lemma takeWhile_run:
  "\<forall>c\<in>set ds. P c \<Longrightarrow> ys = [] \<or> \<not> P (hd ys) \<Longrightarrow> takeWhile P (ds @ ys) = ds"
  by (cases ys) (auto simp: takeWhile_append2)

lemma dropWhile_run:
  "\<forall>c\<in>set ds. P c \<Longrightarrow> ys = [] \<or> \<not> P (hd ys) \<Longrightarrow> dropWhile P (ds @ ys) = ys"
  by (cases ys) (auto simp: dropWhile_append2)

lemma dropWhile_skip:
  "\<forall>c\<in>set pre. \<not> P c \<Longrightarrow> dropWhile (\<lambda>c. \<not> P c) (pre @ xs) = dropWhile (\<lambda>c. \<not> P c) xs"
  by (induction pre) auto

lemma digit_comma_to_dot:
  "\<not> re_digit py 46 \<Longrightarrow> \<not> re_digit py 44 \<Longrightarrow> re_digit py (comma_to_dot c) = re_digit py c"
  by (simp add: comma_to_dot_def)

lemma comma_to_dot_digits:
  "\<not> re_digit py 44 \<Longrightarrow> \<forall>c\<in>set ds. re_digit py c \<Longrightarrow> map comma_to_dot ds = ds"
  by (induction ds) (auto simp: comma_to_dot_def)

lemma parse_price_no_digit:
  assumes "\<not> re_digit py 46" "\<not> re_digit py 44" "\<forall>c\<in>set s. \<not> re_digit py c"
  shows "parse_price py s = None"
  using assms by (simp add: parse_price_def Let_def digit_comma_to_dot dropWhile_eq_Nil_conv)

lemma parse_price_form:
  assumes dot: "\<not> re_digit py 46" and comma: "\<not> re_digit py 44"
    and pre: "\<forall>c\<in>set pre. \<not> re_digit py c"
    and d1: "ds1 \<noteq> []" "\<forall>c\<in>set ds1. re_digit py c"
    and d2: "ds2 \<noteq> []" "\<forall>c\<in>set ds2. re_digit py c"
    and sep: "sep = 46 \<or> sep = 44"
    and post: "post = [] \<or> \<not> re_digit py (hd post)"
  shows "parse_price py (pre @ ds1 @ sep # ds2 @ post) = Some (to_float py (ds1 @ 46 # ds2))"
proof -
  let ?post = "map comma_to_dot post"
  let ?tail = "46 # ds2 @ ?post"
  have norm: "map comma_to_dot (pre @ ds1 @ sep # ds2 @ post) = map comma_to_dot pre @ ds1 @ ?tail"
    using d1 d2 sep comma by (auto simp: comma_to_dot_digits comma_to_dot_def)
  have pre': "\<forall>c\<in>set (map comma_to_dot pre). \<not> re_digit py c"
    using pre dot comma by (simp add: digit_comma_to_dot)
  have post': "?post = [] \<or> \<not> re_digit py (hd ?post)"
    using post dot comma by (cases post) (auto simp: digit_comma_to_dot)
  have hd1: "re_digit py (hd ds1)"
    using d1 by (cases ds1) auto
  have rest: "dropWhile (\<lambda>c. \<not> re_digit py c) (map comma_to_dot (pre @ ds1 @ sep # ds2 @ post))
                = ds1 @ ?tail"
    unfolding norm using dropWhile_skip [OF pre', of "ds1 @ ?tail"] d1 hd1
    by (cases ds1) auto
  have ip: "takeWhile (re_digit py) (ds1 @ ?tail) = ds1"
    using takeWhile_run [OF d1(2), of ?tail] dot by simp
  have after: "dropWhile (re_digit py) (ds1 @ ?tail) = ?tail"
    using dropWhile_run [OF d1(2), of ?tail] dot by simp
  have fp: "takeWhile (re_digit py) (ds2 @ ?post) = ds2"
    using takeWhile_run [OF d2(2) post'] .
  show ?thesis
    unfolding parse_price_def Let_def rest ip after using d1 d2 fp by simp
qed

text \<open>
  Claim C5, amended. Let the full stop and the comma not be digits. A price string made of
  a digit-free prefix, a run of digits, a full stop or a comma, a second run of digits and a
  rest that does not go on with a digit is parsed to the number \<open>float()\<close> reads from the
  two runs with a full stop between them; a string with no digit is parsed to \<open>None\<close>.
\<close>

theorem parse_price_recovers:
  "\<not> re_digit py 46 \<and> \<not> re_digit py 44 \<longrightarrow>
   ((\<forall>c\<in>set pre. \<not> re_digit py c) \<and> ds1 \<noteq> [] \<and> (\<forall>c\<in>set ds1. re_digit py c) \<and>
    ds2 \<noteq> [] \<and> (\<forall>c\<in>set ds2. re_digit py c) \<and> (sep = 46 \<or> sep = 44) \<and>
    (post = [] \<or> \<not> re_digit py (hd post))
    \<longrightarrow> parse_price py (pre @ ds1 @ sep # ds2 @ post) = Some (to_float py (ds1 @ 46 # ds2))) \<and>
   ((\<forall>c\<in>set s. \<not> re_digit py c) \<longrightarrow> parse_price py s = None)"
  using parse_price_form [of py pre ds1 ds2 sep post] parse_price_no_digit [of py s]
  by blast

theorem parse_price_recovers_witness:
  "parse_price ascii (uni ''0,29 '' @ euro) = Some (to_float ascii (uni ''0.29''))
   \<and> parse_price ascii (uni ''$1.16'') = Some (to_float ascii (uni ''1.16''))
   \<and> parse_price ascii (uni ''Free '' @ euro) = None"
proof -
  have dc: "\<not> re_digit ascii 46 \<and> \<not> re_digit ascii 44"
    by (simp add: ascii_def ascii_digit_def)
  have a: "parse_price ascii (uni ''0,29 '' @ euro) = Some (to_float ascii (uni ''0.29''))"
    using parse_price_recovers [of ascii "[]" "uni ''0''" "uni ''29''" 44 "uni '' '' @ euro" "[]",
        THEN mp, OF dc, THEN conjunct1]
    by (simp add: ascii_def ascii_digit_def uni_def euro_def)
  have b: "parse_price ascii (uni ''$1.16'') = Some (to_float ascii (uni ''1.16''))"
    using parse_price_recovers [of ascii "uni ''$''" "uni ''1''" "uni ''16''" 46 "[]" "[]",
        THEN mp, OF dc, THEN conjunct1]
    by (simp add: ascii_def ascii_digit_def uni_def)
  have c: "parse_price ascii (uni ''Free '' @ euro) = None"
    using parse_price_recovers [of ascii "[]" "[]" "[]" 0 "[]" "uni ''Free '' @ euro",
        THEN mp, OF dc, THEN conjunct2]
    by (simp add: ascii_def ascii_digit_def uni_def euro_def)
  from a b c show ?thesis by (intro conjI)
qed

text \<open>
  The number returned is a float: for a numeral that no double holds it is the nearest
  double, not the value the digit groups denote.
\<close>

theorem parse_price_rounds:
  "parse_price ascii (uni ''9007199254740993.5'') = Some 9007199254740994
   \<and> decimal (uni ''9007199254740993.5'') = 18014398509481987 / 2
   \<and> (9007199254740994 :: rat) \<noteq> 18014398509481987 / 2"
  by code_simp

section \<open>Classifier, orchestrator and history\<close>

lemma classify_loop_spec:
  "classify_loop py lines ls (pl, np) =
     ((case filter (is_price_line py lines) ls of [] \<Rightarrow> pl | p # ps \<Rightarrow> Some (last (p # ps))),
      np @ filter (\<lambda>l. \<not> is_price_line py lines l) ls)"
proof (induction ls arbitrary: pl np)
  case Nil
  then show ?case by simp
next
  case (Cons l ls)
  show ?case
  proof (cases "is_price_line py lines l")
    case True
    then show ?thesis
      using Cons.IH [of "Some l" np] by (simp split: list.splits)
  next
    case False
    then show ?thesis
      using Cons.IH [of pl "np @ [l]"] by simp
  qed
qed

lemma classify_card_filter:
  assumes "2 \<le> length (card_lines py raw)"
  shows "classify_card py ts raw =
     (if filter (is_price_line py (card_lines py raw)) (card_lines py raw) = [] then None
      else (case parse_price py (last (filter (is_price_line py (card_lines py raw)) (card_lines py raw))) of
              None \<Rightarrow> None
            | Some price \<Rightarrow>
                Some \<lparr>timestamp = ts,
                      pet_name = join (uni '' '') (filter (\<lambda>l. \<not> is_price_line py (card_lines py raw) l) (card_lines py raw)),
                      price_eur = price\<rparr>))"
proof (cases "filter (is_price_line py (card_lines py raw)) (card_lines py raw)")
  case Nil
  then show ?thesis
    using assms by (simp add: classify_card_def Let_def classify_loop_spec)
next
  case (Cons p ps)
  then show ?thesis
    using assms by (simp add: classify_card_def Let_def classify_loop_spec split: option.splits)
qed

text \<open>
  Claim C3, amended. On a card of at least two lines, a line is a price line when it holds a
  currency marker, or when it holds a digit and is equal to the last line. The price is read
  from the last price line in original order, and the observed name is made of the lines
  that are not price lines, in original order, with one space between two of them.
\<close>

theorem classify_card_spec:
  "2 \<le> length (card_lines py raw) \<longrightarrow>
   classify_card py ts raw =
     (let lines = card_lines py raw;
          priced = filter (\<lambda>l. has_currency l \<or> (has_digit py l \<and> l = last lines)) lines;
          named = filter (\<lambda>l. \<not> (has_currency l \<or> (has_digit py l \<and> l = last lines))) lines
      in if priced = [] then None
         else (case parse_price py (last priced) of
                 None \<Rightarrow> None
               | Some price \<Rightarrow>
                   Some \<lparr>timestamp = ts, pet_name = join (uni '' '') named, price_eur = price\<rparr>))"
  using classify_card_filter [of py raw ts] unfolding is_price_line_def [abs_def] Let_def
  by simp

theorem classify_card_spec_witness:
  "2 \<le> length (card_lines ascii (card_with [''Shadow'', ''Dragon'', ''4.75 $'']))
   \<and> classify_card ascii now (card_with [''Shadow'', ''Dragon'', ''4.75 $''])
       = Some (listing ''Shadow Dragon'' (19 / 4))"
proof -
  let ?raw = "card_with [''Shadow'', ''Dragon'', ''4.75 $'']"
  have h: "2 \<le> length (card_lines ascii ?raw)"
    by code_simp
  note r = classify_card_spec [of ascii ?raw now, THEN mp, OF h]
  have "classify_card ascii now ?raw = Some (listing ''Shadow Dragon'' (19 / 4))"
    unfolding r by code_simp
  with h show ?thesis by (rule conjI)
qed

text \<open>
  A card with a currency line followed by a last line with a digit: the last line is taken as
  the price line although it holds no currency marker, and the currency line is left out of
  the name.
\<close>

theorem currency_line_overridden:
  "card_lines ascii (card_with [''Dragon'', ''5 $'', ''7''])
     = [uni ''Dragon'', uni ''5 $'', uni ''7'']
   \<and> has_currency (uni ''5 $'') \<and> \<not> has_currency (uni ''7'')
   \<and> classify_loop ascii [uni ''Dragon'', uni ''5 $'', uni ''7'']
         [uni ''Dragon'', uni ''5 $'', uni ''7''] (None, [])
       = (Some (uni ''7''), [uni ''Dragon''])
   \<and> classify_card ascii now (card_with [''Dragon'', ''5 $'', ''7''])
       = Some (listing ''Dragon'' 7)"
  by code_simp

lemma classify_card_short: "length (card_lines py raw) < 2 \<Longrightarrow> classify_card py ts raw = None"
  by (simp add: classify_card_def)

lemma classify_card_None_iff:
  "classify_card py ts raw = None \<longleftrightarrow>
     (length (card_lines py raw) < 2
      \<or> filter (is_price_line py (card_lines py raw)) (card_lines py raw) = []
      \<or> parse_price py (last (filter (is_price_line py (card_lines py raw)) (card_lines py raw))) = None)"
proof (cases "length (card_lines py raw) < 2")
  case True
  then show ?thesis by (simp add: classify_card_short)
next
  case False
  then have "2 \<le> length (card_lines py raw)" by simp
  from classify_card_filter [OF this, of ts] False show ?thesis
    by (auto split: option.splits if_splits)
qed

lemma cards_loop_append:
  "cards_loop py ts (xs @ ys) st = cards_loop py ts ys (cards_loop py ts xs st)"
  by (induction py ts xs st rule: cards_loop.induct) (auto split: option.splits)

lemma cards_loop_acc:
  "cards_loop py ts raws (items, n) =
     (items @ fst (cards_loop py ts raws ([], 0)), n + snd (cards_loop py ts raws ([], 0)))"
proof (induction raws arbitrary: items n)
  case Nil
  then show ?case by simp
next
  case (Cons raw raws)
  show ?case
  proof (cases "classify_card py ts raw")
    case None
    then show ?thesis using Cons.IH [of items n] Cons.IH [of "[]" 0] by simp
  next
    case (Some it)
    then show ?thesis
      using Cons.IH [of "items @ [it]" "n + 1"] Cons.IH [of "[it]" 1] by simp
  qed
qed

lemma cards_loop_drop:
  assumes "classify_card py ts raw = None"
  shows "cards_loop py ts (xs @ raw # ys) st = cards_loop py ts (xs @ ys) st"
proof -
  obtain items n where st: "cards_loop py ts xs st = (items, n)" by (cases "cards_loop py ts xs st")
  show ?thesis
    using assms by (simp add: cards_loop_append st)
qed

lemma hunt_loop_append:
  "hunt_loop py ts (xs @ ys) st = hunt_loop py ts ys (hunt_loop py ts xs st)"
proof (induction xs arbitrary: st)
  case Nil
  then show ?case by simp
next
  case (Cons x xs)
  obtain a oc where x: "x = (a, oc)" by (cases x)
  obtain items out where st: "st = (items, out)" by (cases st)
  show ?case
  proof (cases "strip py (case alert.pet_name a of None \<Rightarrow> [] | Some s \<Rightarrow> s) = []")
    case True
    then show ?thesis using Cons.IH by (simp add: x st)
  next
    case False
    show ?thesis
    proof (cases oc)
      case (Inl e)
      then show ?thesis using False Cons.IH by (simp add: x st Let_def)
    next
      case (Inr raw_items)
      obtain found k where c: "cards_loop py ts raw_items (items, 0) = (found, k)"
        by (cases "cards_loop py ts raw_items (items, 0)")
      show ?thesis using False Inr c Cons.IH by (simp add: x st Let_def)
    qed
  qed
qed

lemma hunt_loop_acc:
  "hunt_loop py ts xs (items, out) =
     (items @ fst (hunt_loop py ts xs ([], [])), out @ snd (hunt_loop py ts xs ([], [])))"
proof (induction xs arbitrary: items out)
  case Nil
  then show ?case by simp
next
  case (Cons x xs)
  obtain a oc where x: "x = (a, oc)" by (cases x)
  let ?n = "strip py (case alert.pet_name a of None \<Rightarrow> [] | Some s \<Rightarrow> s)"
  let ?F = "fst (hunt_loop py ts xs ([], []))"
  let ?S = "snd (hunt_loop py ts xs ([], []))"
  show ?case
  proof (cases "?n = []")
    case True
    then have "hunt_loop py ts (x # xs) (items, out) = hunt_loop py ts xs (items, out)"
      and "hunt_loop py ts (x # xs) ([], []) = hunt_loop py ts xs ([], [])"
      by (simp_all add: x)
    then show ?thesis using Cons.IH [of items out] by simp
  next
    case False
    show ?thesis
    proof (cases oc)
      case (Inl e)
      let ?r = "[Hunting ?n (target_price a), Failed ?n e]"
      have l: "hunt_loop py ts (x # xs) (items, out) = hunt_loop py ts xs (items, out @ ?r)"
        and r: "hunt_loop py ts (x # xs) ([], []) = hunt_loop py ts xs ([], ?r)"
        using False Inl by (simp_all add: x Let_def)
      show ?thesis
        unfolding l r Cons.IH [of items "out @ ?r"] Cons.IH [of "[]" ?r] by simp
    next
      case (Inr raw_items)
      obtain found k where c: "cards_loop py ts raw_items ([], 0) = (found, k)"
        by (cases "cards_loop py ts raw_items ([], 0)")
      have c': "cards_loop py ts raw_items (items, 0) = (items @ found, k)"
        using cards_loop_acc [of py ts raw_items items 0] c by simp
      let ?r = "[Hunting ?n (target_price a), if k = 0 then No_results ?n else Found k]"
      have l: "hunt_loop py ts (x # xs) (items, out) = hunt_loop py ts xs (items @ found, out @ ?r)"
        and r: "hunt_loop py ts (x # xs) ([], []) = hunt_loop py ts xs (found, ?r)"
        using False Inr c c' by (simp_all add: x Let_def)
      show ?thesis
        unfolding l r Cons.IH [of "items @ found" "out @ ?r"] Cons.IH [of found ?r] by simp
    qed
  qed
qed

lemma hunt_loop_split:
  "hunt_loop py ts (xs @ ys) ([], []) =
     (fst (hunt_loop py ts xs ([], [])) @ fst (hunt_loop py ts ys ([], [])),
      snd (hunt_loop py ts xs ([], [])) @ snd (hunt_loop py ts ys ([], [])))"
proof -
  obtain items out where h: "hunt_loop py ts xs ([], []) = (items, out)"
    by (cases "hunt_loop py ts xs ([], [])")
  show ?thesis
    unfolding hunt_loop_append h using hunt_loop_acc [of py ts ys items out] by simp
qed

lemma hunt_loop_split3:
  "hunt_loop py ts (pre @ x # post) ([], []) =
     (fst (hunt_loop py ts pre ([], [])) @ fst (hunt_loop py ts [x] ([], []))
        @ fst (hunt_loop py ts post ([], [])),
      snd (hunt_loop py ts pre ([], [])) @ snd (hunt_loop py ts [x] ([], []))
        @ snd (hunt_loop py ts post ([], [])))"
  using hunt_loop_split [of py ts pre "x # post"] hunt_loop_split [of py ts "[x]" post]
  by simp

text \<open>
  The loop over the alerts isolates a failed search: the listings it collects are those of
  the entries before and after the failed one.
\<close>

lemma hunt_loop_isolates:
  "fst (hunt_loop py ts (pre @ (a, Inl e) # post) ([], []))
     = fst (hunt_loop py ts pre ([], [])) @ fst (hunt_loop py ts post ([], []))"
  by (simp add: hunt_loop_split3 Let_def)

lemma hunt_loop_drop_card:
  assumes "classify_card py ts raw = None"
  shows "hunt_loop py ts (pre @ (a, Inr (xs @ raw # ys)) # post) ([], [])
           = hunt_loop py ts (pre @ (a, Inr (xs @ ys)) # post) ([], [])"
proof -
  have "hunt_loop py ts [(a, Inr (xs @ raw # ys))] ([], [])
          = hunt_loop py ts [(a, Inr (xs @ ys))] ([], [])"
    using cards_loop_drop [OF assms] by (simp add: Let_def)
  then show ?thesis
    by (simp add: hunt_loop_split3)
qed


text \<open>
  Claim C7, amended. A card is rejected exactly when it has fewer than two non-empty lines,
  when no line is a price line, or when the price line has no number. A rejected card is
  dropped without a trace in the listings, and so in the history and the alerts made from
  them: the loop over the cards and the loop over the alerts give the listings, the
  found-count and the printed lines of the run without the card. A blank observed name is
  not a reason for rejection, nor is a name that runs on into the price line.
\<close>

theorem rejected_card_dropped:
  "(classify_card py ts raw = None \<longleftrightarrow>
      (length (card_lines py raw) < 2
       \<or> filter (is_price_line py (card_lines py raw)) (card_lines py raw) = []
       \<or> parse_price py (last (filter (is_price_line py (card_lines py raw)) (card_lines py raw)))
           = None))
   \<and> (classify_card py ts raw = None \<longrightarrow>
        cards_loop py ts (xs @ raw # ys) st = cards_loop py ts (xs @ ys) st
        \<and> hunt_loop py ts (pre @ (a, Inr (xs @ raw # ys)) # post) ([], [])
            = hunt_loop py ts (pre @ (a, Inr (xs @ ys)) # post) ([], []))"
  using classify_card_None_iff [of py ts raw] cards_loop_drop [of py ts raw xs ys st]
    hunt_loop_drop_card [of py ts raw pre a xs ys post]
  by simp

theorem rejected_card_dropped_witness:
  "classify_card ascii now (card_with [''Dragon'', ''Free $'']) = None
   \<and> cards_loop ascii now
        [card_with [''Dragon'', ''Free $''], card_with [''Dragon'', ''4.00 $'']] ([], 0)
     = cards_loop ascii now [card_with [''Dragon'', ''4.00 $'']] ([], 0)
   \<and> hunt_loop ascii now
        [(target ''Dragon'' 5,
          Inr [card_with [''Dragon'', ''Free $''], card_with [''Dragon'', ''4.00 $'']])] ([], [])
     = hunt_loop ascii now
        [(target ''Dragon'' 5, Inr [card_with [''Dragon'', ''4.00 $'']])] ([], [])"
proof -
  let ?raw = "card_with [''Dragon'', ''Free $'']"
  let ?ok = "card_with [''Dragon'', ''4.00 $'']"
  have h: "classify_card ascii now ?raw = None"
    by code_simp
  from rejected_card_dropped [of ascii now ?raw "[]" "[?ok]" "([], 0)" "[]"
      "target ''Dragon'' 5" "[]", THEN conjunct2, THEN mp, OF h]
  have "cards_loop ascii now ([] @ ?raw # [?ok]) ([], 0)
        = cards_loop ascii now ([] @ [?ok]) ([], 0)
     \<and> hunt_loop ascii now ([] @ (target ''Dragon'' 5, Inr ([] @ ?raw # [?ok])) # []) ([], [])
        = hunt_loop ascii now ([] @ (target ''Dragon'' 5, Inr ([] @ [?ok])) # []) ([], [])" .
  then have "cards_loop ascii now [?raw, ?ok] ([], 0) = cards_loop ascii now [?ok] ([], 0)
     \<and> hunt_loop ascii now [(target ''Dragon'' 5, Inr [?raw, ?ok])] ([], [])
        = hunt_loop ascii now [(target ''Dragon'' 5, Inr [?ok])] ([], [])"
    by simp
  with h show ?thesis by (rule conjI)
qed

text \<open>
  A card of two currency lines has a blank observed name; it is kept as a listing, counted,
  and written to the history by \<open>append_to_csv\<close>. A card whose name runs on into the price
  line is kept as well, with the rest of the name.
\<close>

theorem blank_name_kept:
  "classify_card ascii now (card_with [''5 $'', ''4 $'']) = Some (listing [] 4)
   \<and> cards_loop ascii now [card_with [''5 $'', ''4 $'']] ([], 0) = ([listing [] 4], 1)
   \<and> append_to_csv [listing [] 4] None = Some [Header, Row now [] 4]
   \<and> classify_card ascii now (card_with [''Golden'', ''Dragon 4 $''])
       = Some (listing ''Golden'' 4)"
  by code_simp

lemma append_to_csv_nonempty_store:
  "old \<noteq> [] \<Longrightarrow> append_to_csv items (Some old) = Some (old @ map row_of items)"
  by (simp add: append_to_csv_def Let_def)

lemma append_runs_nonempty_store:
  "old \<noteq> [] \<Longrightarrow> append_runs runs (Some old) = Some (old @ map row_of (concat runs))"
proof (induction runs arbitrary: old)
  case Nil
  then show ?case by simp
next
  case (Cons items runs)
  then show ?case by (simp add: append_to_csv_nonempty_store)
qed

lemma append_runs_fresh:
  "csv = None \<or> csv = Some [] \<Longrightarrow>
   append_runs runs csv = (if concat runs = [] then csv else Some (Header # map row_of (concat runs)))"
proof (induction runs)
  case Nil
  then show ?case by simp
next
  case (Cons items runs)
  show ?case
  proof (cases "items = []")
    case True
    then show ?thesis using Cons by (simp add: append_to_csv_def)
  next
    case False
    then have "append_to_csv items csv = Some (Header # map row_of items)"
      using Cons.prems by (auto simp: append_to_csv_def Let_def)
    then show ?thesis
      using False append_runs_nonempty_store [of "Header # map row_of items" runs] by simp
  qed
qed

text \<open>
  Claim C6, amended. A run with listings keeps the rows of the store in place, writes the
  header when the store is absent or empty, and adds one row per listing in order; a run
  without listings leaves the store as it is. After any number of runs from an absent store
  the store is absent when no run had a listing, and otherwise holds the header followed by
  the rows of the runs in run order; from a store with rows it holds those rows followed by
  the rows of the runs.
\<close>

theorem history_append:
  "(items \<noteq> [] \<longrightarrow>
      append_to_csv items csv =
        Some ((case csv of None \<Rightarrow> [] | Some old \<Rightarrow> old)
              @ (if csv = None \<or> csv = Some [] then [Header] else []) @ map row_of items))
   \<and> (items = [] \<longrightarrow> append_to_csv items csv = csv)
   \<and> append_runs runs None
       = (if concat runs = [] then None else Some (Header # map row_of (concat runs)))
   \<and> (old \<noteq> [] \<longrightarrow> append_runs runs (Some old) = Some (old @ map row_of (concat runs)))"
  using append_runs_fresh [of None runs] append_runs_nonempty_store [of old runs]
  by (auto simp: append_to_csv_def Let_def split: option.splits)


theorem history_append_witness:
  "append_to_csv [listing ''Dragon'' 4] None = Some [Header, Row now (uni ''Dragon'') 4]
   \<and> append_runs [[listing ''Dragon'' 4], [], [listing ''Cat'' 1, listing ''Owl'' 2]] None
       = Some [Header, Row now (uni ''Dragon'') 4, Row now (uni ''Cat'') 1,
               Row now (uni ''Owl'') 2]
   \<and> append_runs [[listing ''Cat'' 1]] (Some [Header, Row now (uni ''Dragon'') 4])
       = Some [Header, Row now (uni ''Dragon'') 4, Row now (uni ''Cat'') 1]"
proof -
  note t = history_append [of "[listing ''Dragon'' 4]" None
      "[[listing ''Dragon'' 4], [], [listing ''Cat'' 1, listing ''Owl'' 2]]"
      "[Header, Row now (uni ''Dragon'') (4 :: rat)]"]
  have a: "append_to_csv [listing ''Dragon'' 4] None = Some [Header, Row now (uni ''Dragon'') 4]"
    using t [THEN conjunct1] by (simp add: row_of_def listing_def)
  have b: "append_runs [[listing ''Dragon'' 4], [], [listing ''Cat'' 1, listing ''Owl'' 2]] None
       = Some [Header, Row now (uni ''Dragon'') 4, Row now (uni ''Cat'') 1,
               Row now (uni ''Owl'') 2]"
    unfolding t [THEN conjunct2, THEN conjunct2, THEN conjunct1]
    by (simp add: row_of_def listing_def)
  have c: "append_runs [[listing ''Cat'' 1]] (Some [Header, Row now (uni ''Dragon'') 4])
       = Some [Header, Row now (uni ''Dragon'') 4, Row now (uni ''Cat'') 1]"
    using history_append [of "[] :: rat item list" None "[[listing ''Cat'' 1]]"
        "[Header, Row now (uni ''Dragon'') (4 :: rat)]"]
    by (simp add: row_of_def listing_def)
  from a b c show ?thesis by blast
qed

text \<open>
  The header is written to a store that exists and is empty, and a run without listings
  on an absent store writes no header.
\<close>

theorem header_on_empty_store:
  "append_to_csv [listing ''Dragon'' 4] (Some []) = Some [Header, Row now (uni ''Dragon'') 4]
   \<and> append_runs [[]] None = None"
  by code_simp

section \<open>Matching and deduplication\<close>




lemma fallback_key: "fallback py ks name = Some t \<Longrightarrow> t \<in> set ks"
  by (induction ks) (auto split: if_splits)

lemma match_target_key: "match_target py tp name = Some t \<Longrightarrow> t \<in> set (map fst tp)"
  by (auto simp: match_target_def dest: fallback_key split: if_splits)

lemma match_target_lookup: "match_target py tp name = Some t \<Longrightarrow> \<exists>m. map_of tp t = Some m"
proof -
  assume "match_target py tp name = Some t"
  then have "t \<in> fst ` set tp" using match_target_key by fastforce
  then show ?thesis by (metis map_of_eq_None_iff not_Some_eq)
qed

lemma filter_step:
  "filter_loop py tp (item # rest) (fr, mt)
     = filter_loop py tp rest (keep_best py tp fr item, match_target py tp (pet_name item))"
proof (cases "match_target py tp (pet_name item)")
  case None
  then show ?thesis by (simp add: keep_best_def qualifies_def Let_def)
next
  case (Some t)
  then obtain m where m: "map_of tp t = Some m" using match_target_lookup by blast
  show ?thesis
    using Some m by (simp add: keep_best_def qualifies_def Let_def split: option.splits)
qed

lemma filter_loop_fold:
  "filter_loop py tp items (fr, mt)
     = Inr (foldl (keep_best py tp) fr items,
            if items = [] then mt else match_target py tp (pet_name (last items)))"
proof (induction items arbitrary: fr mt)
  case Nil
  then show ?case by simp
next
  case (Cons item rest)
  show ?case
    unfolding filter_step Cons.IH by simp
qed


lemma keep_best_distinct:
  "distinct (map fst fr) \<Longrightarrow> distinct (map fst (keep_best py tp fr x))"
  by (simp add: keep_best_def distinct_update)

lemma keep_best_lookup:
  "map_of (keep_best py tp fr x) n =
     (if n = pet_name x \<and> qualifies py tp x \<and> match_target py tp (pet_name x) \<noteq> Some []
         \<and> (case map_of fr (pet_name x) of None \<Rightarrow> True
             | Some best \<Rightarrow> price_eur x < price_eur best)
      then Some x else map_of fr n)"
  by (simp add: keep_best_def update_conv')

lemma fold_distinct: "distinct (map fst (foldl (keep_best py tp) [] items))"
  by (induction items rule: rev_induct) (simp_all add: keep_best_distinct)

lemma fold_sound:
  "map_of (foldl (keep_best py tp) [] items) n = Some b \<Longrightarrow>
     b \<in> set items \<and> pet_name b = n \<and> qualifies py tp b \<and> match_target py tp n \<noteq> Some []"
proof (induction items arbitrary: b rule: rev_induct)
  case Nil
  then show ?case by simp
next
  case (snoc x xs)
  then show ?case
    by (auto simp: keep_best_lookup split: if_splits)
qed

lemma fold_covers:
  "j \<in> set items \<Longrightarrow> qualifies py tp j \<Longrightarrow> match_target py tp (pet_name j) \<noteq> Some [] \<Longrightarrow>
     \<exists>b. map_of (foldl (keep_best py tp) [] items) (pet_name j) = Some b"
proof (induction items rule: rev_induct)
  case Nil
  then show ?case by simp
next
  case (snoc x xs)
  show ?case
  proof (cases "j \<in> set xs")
    case True
    then obtain b where "map_of (foldl (keep_best py tp) [] xs) (pet_name j) = Some b"
      using snoc by blast
    then show ?thesis by (simp add: keep_best_lookup)
  next
    case False
    then have "j = x" using snoc.prems by simp
    then show ?thesis
      using snoc.prems by (cases "map_of (foldl (keep_best py tp) [] xs) (pet_name x)")
        (simp_all add: keep_best_lookup)
  qed
qed

lemma fold_least:
  "map_of (foldl (keep_best py tp) [] items) n = Some b \<Longrightarrow>
   j \<in> set items \<Longrightarrow> pet_name j = n \<Longrightarrow> qualifies py tp j \<Longrightarrow> price_eur b \<le> price_eur j"
proof (induction items arbitrary: b j rule: rev_induct)
  case Nil
  then show ?case by simp
next
  case (snoc x xs)
  let ?F = "foldl (keep_best py tp) [] xs"
  have alertable: "match_target py tp n \<noteq> Some []"
    using fold_sound [OF snoc.prems(1)] by simp
  show ?case
  proof (cases "n = pet_name x \<and> qualifies py tp x \<and> match_target py tp (pet_name x) \<noteq> Some []
         \<and> (case map_of ?F (pet_name x) of None \<Rightarrow> True
             | Some best \<Rightarrow> price_eur x < price_eur best)")
    case True
    then have b: "b = x" using snoc.prems(1) by (simp add: keep_best_lookup)
    show ?thesis
    proof (cases "j \<in> set xs")
      case False
      then show ?thesis using snoc.prems(2) b by simp
    next
      case jin: True
      then obtain b' where b': "map_of ?F (pet_name j) = Some b'"
        using fold_covers [OF jin snoc.prems(4)] alertable snoc.prems(3) by auto
      then have "price_eur b' \<le> price_eur j"
        using snoc.IH [OF _ jin _ snoc.prems(4)] snoc.prems(3) by simp
      moreover have "price_eur x < price_eur b'"
        using True b' snoc.prems(3) by simp
      ultimately show ?thesis using b by simp
    qed
  next
    case False
    then have old: "map_of ?F n = Some b"
      using snoc.prems(1) by (simp add: keep_best_lookup split: if_splits)
    show ?thesis
    proof (cases "j \<in> set xs")
      case True
      show ?thesis by (rule snoc.IH [OF old True snoc.prems(3,4)])
    next
      case jx: False
      then have "j = x" using snoc.prems(2) by simp
      then show ?thesis
        using False old snoc.prems(3,4) alertable by auto
    qed
  qed
qed

text \<open>
  Claim C1. The loop over the items always ends with a dictionary \<open>filtered_results\<close>.
  Its keys are distinct observed names, so there is at most one alert per observed name. The
  item kept for a name is one of the run's items with that name, it qualifies py, and its
  price is the minimum of the prices of the qualifying items with that name. Every item that
  qualifies py with a matching target that is not the empty string has its name among the keys.
\<close>

theorem dedup_min:
  "(\<exists>fr mt. filter_loop py tp items ([], None) = Inr (fr, mt)) \<and>
   (\<forall>fr mt. filter_loop py tp items ([], None) = Inr (fr, mt) \<longrightarrow>
      distinct (map fst fr)
      \<and> (\<forall>(n, best) \<in> set fr.
            best \<in> set items \<and> pet_name best = n \<and> qualifies py tp best
            \<and> price_eur best = Min (price_eur ` {j \<in> set items. pet_name j = n \<and> qualifies py tp j}))
      \<and> (\<forall>j \<in> set items.
            qualifies py tp j \<and> match_target py tp (pet_name j) \<noteq> Some []
            \<longrightarrow> pet_name j \<in> fst ` set fr))"
proof (intro conjI allI impI)
  show "\<exists>fr mt. filter_loop py tp items ([], None) = Inr (fr, mt)"
    by (simp add: filter_loop_fold)
next
  fix fr mt
  assume "filter_loop py tp items ([], None) = Inr (fr, mt)"
  then have fr: "fr = foldl (keep_best py tp) [] items"
    by (simp add: filter_loop_fold)
  show d: "distinct (map fst fr)"
    unfolding fr by (rule fold_distinct)
  show "\<forall>(n, best) \<in> set fr.
            best \<in> set items \<and> pet_name best = n \<and> qualifies py tp best
            \<and> price_eur best = Min (price_eur ` {j \<in> set items. pet_name j = n \<and> qualifies py tp j})"
  proof (clarify)
    fix n best
    assume "(n, best) \<in> set fr"
    then have m: "map_of (foldl (keep_best py tp) [] items) n = Some best"
      using d fr by simp
    note s = fold_sound [OF m]
    let ?S = "price_eur ` {j \<in> set items. pet_name j = n \<and> qualifies py tp j}"
    have fin: "finite ?S" by simp
    have mem: "price_eur best \<in> ?S" using s by blast
    have le: "\<And>y. y \<in> ?S \<Longrightarrow> price_eur best \<le> y"
      using fold_least [OF m] by auto
    have "Min ?S = price_eur best"
      using fin le mem by (rule Min_eqI)
    then show "best \<in> set items \<and> pet_name best = n \<and> qualifies py tp best
            \<and> price_eur best = Min ?S"
      using s by simp
  qed
  show "\<forall>j \<in> set items.
            qualifies py tp j \<and> match_target py tp (pet_name j) \<noteq> Some []
            \<longrightarrow> pet_name j \<in> fst ` set fr"
  proof (intro ballI impI)
    fix j assume j: "j \<in> set items" and q: "qualifies py tp j \<and> match_target py tp (pet_name j) \<noteq> Some []"
    then obtain b where "map_of fr (pet_name j) = Some b"
      using fold_covers [of j items py tp] fr by auto
    then have "(pet_name j, b) \<in> set fr" by (rule map_of_SomeD)
    then show "pet_name j \<in> fst ` set fr" by force
  qed
qed

theorem dedup_min_witness:
  "filter_loop ascii [(uni ''Dragon'', 5)]
     [listing ''Golden Dragon'' 3, listing ''Golden Dragon'' (5 / 2), listing ''Golden Dragon'' 6]
     ([], None)
     = Inr ([(uni ''Golden Dragon'', listing ''Golden Dragon'' (5 / 2))], Some (uni ''Dragon''))
   \<and> 5 / 2 = Min (price_eur ` {j \<in> set [listing ''Golden Dragon'' 3,
                                           listing ''Golden Dragon'' (5 / 2),
                                           listing ''Golden Dragon'' 6].
                               pet_name j = uni ''Golden Dragon''
                               \<and> qualifies ascii [(uni ''Dragon'', 5)] j})"
proof -
  let ?tp = "[(uni ''Dragon'', 5 :: rat)]"
  let ?items = "[listing ''Golden Dragon'' 3, listing ''Golden Dragon'' (5 / 2),
                 listing ''Golden Dragon'' 6]"
  let ?fr = "[(uni ''Golden Dragon'', listing ''Golden Dragon'' (5 / 2))]"
  have run: "filter_loop ascii ?tp ?items ([], None) = Inr (?fr, Some (uni ''Dragon''))"
    by code_simp
  from dedup_min [of ascii ?tp ?items, THEN conjunct2, rule_format, OF run]
  have "\<forall>(n, best) \<in> set ?fr.
            best \<in> set ?items \<and> pet_name best = n \<and> qualifies ascii ?tp best
            \<and> price_eur best
                = Min (price_eur ` {j \<in> set ?items. pet_name j = n \<and> qualifies ascii ?tp j})"
    by (rule conjunct2 [THEN conjunct1])
  then have "price_eur (listing ''Golden Dragon'' (5 / 2))
      = Min (price_eur ` {j \<in> set ?items. pet_name j = uni ''Golden Dragon''
                                        \<and> qualifies ascii ?tp j})"
    by simp
  then have "5 / 2 = Min (price_eur ` {j \<in> set ?items. pet_name j = uni ''Golden Dragon''
                                                      \<and> qualifies ascii ?tp j})"
    by (simp add: listing_def)
  with run show ?thesis by (rule conjI)
qed

lemma target_names_skip:
  "alert.pet_name a = None \<Longrightarrow> target_names py (a # as) = target_names py as"
  by (simp add: target_names_def map_filter_simps)

lemma target_names_Cons:
  "alert.pet_name a = Some n \<Longrightarrow> target_names py (a # as) = strip py n # target_names py as"
  by (simp add: target_names_def map_filter_simps)





lemma target_pets_of_append:
  "target_pets_of py (xs @ ys) tp0 =
     (case target_pets_of py xs tp0 of Inl e \<Rightarrow> Inl e | Inr tp1 \<Rightarrow> target_pets_of py ys tp1)"
  by (induction py xs tp0 rule: target_pets_of.induct) (auto split: option.splits)

lemma target_pets_of_other:
  "target_pets_of py post tp0 = Inr tp \<Longrightarrow> n \<notin> set (target_names py post) \<Longrightarrow>
   map_of tp n = map_of tp0 n"
proof (induction post arbitrary: tp0)
  case Nil
  then show ?case by simp
next
  case (Cons a as)
  show ?case
  proof (cases "alert.pet_name a")
    case None
    then show ?thesis using Cons by (simp add: target_names_skip)
  next
    case (Some m)
    then obtain p where p: "target_price a = Some p"
      using Cons.prems by (cases "target_price a") auto
    then have run: "target_pets_of py as (AList.update (strip py m) p tp0) = Inr tp"
      using Cons.prems Some by simp
    have "n \<notin> set (target_names py as)" and "n \<noteq> strip py m"
      using Cons.prems(2) Some by (auto simp: target_names_Cons)
    then show ?thesis
      using Cons.IH [OF run] by (simp add: update_conv')
  qed
qed


lemma find_Some_mem: "find P xs = Some t \<Longrightarrow> t \<in> set xs"
  by (induction xs) (auto split: if_splits)





text \<open>
  Claim C10. When no later entry has the trimmed name of an entry, the dictionary holds that
  entry's \<open>target_price\<close> for the name, whatever earlier entries of the same name said, and a
  listing matched to the name has an alert for its observed name exactly when a listing of
  that observed name costs no more than this price.
\<close>

theorem last_entry_wins:
  "target_pets_of py (pre @ a # post) [] = Inr tp \<and> alert.pet_name a = Some p
     \<and> target_price a = Some v \<and> strip py p \<notin> set (target_names py post) \<longrightarrow>
   map_of tp (strip py p) = Some v
   \<and> (\<forall>items fr mt it.
         filter_loop py tp items ([], None) = Inr (fr, mt) \<and> it \<in> set items
           \<and> match_target py tp (pet_name it) = Some (strip py p) \<and> strip py p \<noteq> [] \<longrightarrow>
         (pet_name it \<in> fst ` set fr
            \<longleftrightarrow> (\<exists>j \<in> set items. pet_name j = pet_name it \<and> price_eur j \<le> v)))"
proof (intro impI conjI allI)
  assume h: "target_pets_of py (pre @ a # post) [] = Inr tp \<and> alert.pet_name a = Some p
     \<and> target_price a = Some v \<and> strip py p \<notin> set (target_names py post)"
  then obtain tp1 where tp1: "target_pets_of py pre [] = Inr tp1"
    and rest: "target_pets_of py (a # post) tp1 = Inr tp"
    by (auto simp: target_pets_of_append split: sum.splits)
  have "target_pets_of py post (AList.update (strip py p) v tp1) = Inr tp"
    using rest h by simp
  from target_pets_of_other [OF this] h
  show m: "map_of tp (strip py p) = Some v"
    by (simp add: update_conv')
  fix items fr mt it
  assume g: "filter_loop py tp items ([], None) = Inr (fr, mt) \<and> it \<in> set items
           \<and> match_target py tp (pet_name it) = Some (strip py p) \<and> strip py p \<noteq> []"
  then have fr: "fr = foldl (keep_best py tp) [] items"
    by (simp add: filter_loop_fold)
  have d: "distinct (map fst fr)"
    unfolding fr by (rule fold_distinct)
  show "pet_name it \<in> fst ` set fr
            \<longleftrightarrow> (\<exists>j \<in> set items. pet_name j = pet_name it \<and> price_eur j \<le> v)"
  proof
    assume "pet_name it \<in> fst ` set fr"
    then obtain b where "(pet_name it, b) \<in> set fr" by auto
    then have "map_of (foldl (keep_best py tp) [] items) (pet_name it) = Some b"
      using d fr by simp
    from fold_sound [OF this] have "b \<in> set items" "pet_name b = pet_name it" "price_eur b \<le> v"
      using g m by (auto simp: qualifies_def)
    then show "\<exists>j \<in> set items. pet_name j = pet_name it \<and> price_eur j \<le> v" by blast
  next
    assume "\<exists>j \<in> set items. pet_name j = pet_name it \<and> price_eur j \<le> v"
    then obtain j where j: "j \<in> set items" "pet_name j = pet_name it" "price_eur j \<le> v" by blast
    then have q: "qualifies py tp j" using g m by (simp add: qualifies_def)
    have "match_target py tp (pet_name j) \<noteq> Some []" using g j by simp
    from fold_covers [OF j(1) q this] obtain b where "map_of fr (pet_name j) = Some b"
      using fr by auto
    then have "(pet_name j, b) \<in> set fr" by (rule map_of_SomeD)
    then show "pet_name it \<in> fst ` set fr" using j(2) by force
  qed
qed

theorem last_entry_wins_witness:
  "target_pets_of ascii [target ''Dragon'' 3, target '' Dragon '' 5] []
     = Inr [(uni ''Dragon'', 5)]
   \<and> strip ascii (uni '' Dragon '') = uni ''Dragon''
   \<and> map_of [(uni ''Dragon'', 5 :: rat)] (strip ascii (uni '' Dragon '')) = Some 5
   \<and> filter_loop ascii [(uni ''Dragon'', 5)] [listing ''Golden Dragon'' 4] ([], None)
       = Inr ([(uni ''Golden Dragon'', listing ''Golden Dragon'' 4)], Some (uni ''Dragon''))
   \<and> (pet_name (listing ''Golden Dragon'' 4)
         \<in> fst ` set [(uni ''Golden Dragon'', listing ''Golden Dragon'' 4)])
       = (\<exists>j \<in> set [listing ''Golden Dragon'' 4].
            pet_name j = pet_name (listing ''Golden Dragon'' 4) \<and> price_eur j \<le> 5)"
proof -
  let ?lst = "target '' Dragon '' 5"
  let ?tp = "[(uni ''Dragon'', 5 :: rat)]"
  let ?it = "listing ''Golden Dragon'' 4"
  let ?fr = "[(uni ''Golden Dragon'', ?it)]"
  have tp: "target_pets_of ascii ([target ''Dragon'' 3] @ ?lst # []) [] = Inr ?tp"
    by code_simp
  have st: "strip ascii (uni '' Dragon '') = uni ''Dragon''"
    by code_simp
  have h: "target_pets_of ascii ([target ''Dragon'' 3] @ ?lst # []) [] = Inr ?tp
     \<and> alert.pet_name ?lst = Some (uni '' Dragon '')
     \<and> target_price ?lst = Some 5
     \<and> strip ascii (uni '' Dragon '') \<notin> set (target_names ascii [])"
    using tp by (simp add: target_def target_names_def map_filter_simps)
  note r = last_entry_wins [of ascii "[target ''Dragon'' 3]" ?lst "[]" ?tp "uni '' Dragon ''" 5,
      THEN mp, OF h]
  have m: "map_of ?tp (strip ascii (uni '' Dragon '')) = Some 5"
    by (rule r [THEN conjunct1])
  have run: "filter_loop ascii ?tp [?it] ([], None) = Inr (?fr, Some (uni ''Dragon''))"
    by code_simp
  have g: "filter_loop ascii ?tp [?it] ([], None) = Inr (?fr, Some (uni ''Dragon''))
      \<and> ?it \<in> set [?it]
      \<and> match_target ascii ?tp (pet_name ?it) = Some (strip ascii (uni '' Dragon ''))
      \<and> strip ascii (uni '' Dragon '') \<noteq> []"
    unfolding st by code_simp
  have c: "(pet_name ?it \<in> fst ` set ?fr)
       = (\<exists>j \<in> set [?it]. pet_name j = pet_name ?it \<and> price_eur j \<le> 5)"
    by (rule r [THEN conjunct2, rule_format, OF g])
  from tp st m run c show ?thesis by simp
qed

section \<open>Alert messages and blank entries\<close>

lemma alert_message_form_aux:
  assumes run: "filter_loop py tp items ([], None) = Inr (fr, mt)"
  shows "distinct (map fst fr)
      \<and> length (send_alerts py tp mt fr) = length fr
      \<and> (\<forall>i < length fr. \<exists>shown.
            send_alerts py tp mt fr ! i
              = target_emoji @ uni '' FOUND: '' @ fst (fr ! i) @ uni '' for ''
                  @ format_2f py (price_eur (snd (fr ! i))) @ euro @ uni ''! (Target <= ''
                  @ shown @ euro @ uni '')''
            \<and> (\<forall>m. map_of tp (fst (fr ! i)) = Some m \<longrightarrow> shown = to_str py m))"
proof -
  have d: "distinct (map fst fr)"
    using run fold_distinct [of py tp items] by (simp add: filter_loop_fold)
  have len: "length (send_alerts py tp mt fr) = length fr"
    by (simp add: send_alerts_def)
  have each: "\<exists>shown.
            send_alerts py tp mt fr ! i
              = target_emoji @ uni '' FOUND: '' @ fst (fr ! i) @ uni '' for ''
                  @ format_2f py (price_eur (snd (fr ! i))) @ euro @ uni ''! (Target <= ''
                  @ shown @ euro @ uni '')''
            \<and> (\<forall>m. map_of tp (fst (fr ! i)) = Some m \<longrightarrow> shown = to_str py m)"
    if i: "i < length fr" for i
  proof -
    obtain n b where nb: "fr ! i = (n, b)" by (cases "fr ! i")
    have "send_alerts py tp mt fr ! i = alert_msg py tp mt (n, b)"
      using i nb by (simp add: send_alerts_def)
    then have "send_alerts py tp mt fr ! i
              = target_emoji @ uni '' FOUND: '' @ fst (fr ! i) @ uni '' for ''
                  @ format_2f py (price_eur (snd (fr ! i))) @ euro @ uni ''! (Target <= ''
                  @ shown_target py tp mt n @ euro @ uni '')''"
      by (simp add: alert_msg_def nb)
    moreover have "\<forall>m. map_of tp (fst (fr ! i)) = Some m \<longrightarrow> shown_target py tp mt n = to_str py m"
      by (simp add: shown_target_def nb)
    ultimately show ?thesis by blast
  qed
  from d len each show ?thesis by blast
qed

text \<open>
  Claim C8, amended. The loop over the items always ends, and one message is sent for each
  entry of \<open>filtered_results\<close>, whose keys are distinct observed names, in order. Each
  message is the target emoji and \<open>FOUND:\<close>, the observed name, \<open>for\<close>, the price with two
  decimals and the euro sign, and in brackets \<open>Target <=\<close> with a shown maximum and the euro
  sign. When the observed name is itself a key of \<open>target_pets\<close>, the shown maximum is the
  one configured for it.
\<close>

theorem alert_message_form:
  "filter_loop py tp items ([], None) = Inr (fr, mt) \<longrightarrow>
   distinct (map fst fr)
   \<and> length (send_alerts py tp mt fr) = length fr
   \<and> (\<forall>i < length fr. \<exists>shown.
         send_alerts py tp mt fr ! i
           = target_emoji @ uni '' FOUND: '' @ fst (fr ! i) @ uni '' for ''
               @ format_2f py (price_eur (snd (fr ! i))) @ euro @ uni ''! (Target <= ''
               @ shown @ euro @ uni '')''
         \<and> (\<forall>m. map_of tp (fst (fr ! i)) = Some m \<longrightarrow> shown = to_str py m))"
  using alert_message_form_aux [of py tp items fr mt] by blast

theorem alert_message_form_witness:
  "filter_loop ascii [(uni ''Shadow Dragon'', 5)] [listing ''Shadow Dragon'' (19 / 4)] ([], None)
     = Inr ([(uni ''Shadow Dragon'', listing ''Shadow Dragon'' (19 / 4))],
            Some (uni ''Shadow Dragon''))
   \<and> send_alerts ascii [(uni ''Shadow Dragon'', 5)] (Some (uni ''Shadow Dragon''))
        [(uni ''Shadow Dragon'', listing ''Shadow Dragon'' (19 / 4))]
     = [target_emoji @ uni '' FOUND: Shadow Dragon for 4.75'' @ euro
          @ uni ''! (Target <= 5.0'' @ euro @ uni '')'']
   \<and> length (send_alerts ascii [(uni ''Shadow Dragon'', 5)] (Some (uni ''Shadow Dragon''))
               [(uni ''Shadow Dragon'', listing ''Shadow Dragon'' (19 / 4))])
       = length [(uni ''Shadow Dragon'', listing ''Shadow Dragon'' (19 / 4))]"
proof -
  let ?tp = "[(uni ''Shadow Dragon'', 5 :: rat)]"
  let ?fr = "[(uni ''Shadow Dragon'', listing ''Shadow Dragon'' (19 / 4))]"
  have run: "filter_loop ascii ?tp [listing ''Shadow Dragon'' (19 / 4)] ([], None)
     = Inr (?fr, Some (uni ''Shadow Dragon''))"
    by code_simp
  have msg: "send_alerts ascii ?tp (Some (uni ''Shadow Dragon'')) ?fr
     = [target_emoji @ uni '' FOUND: Shadow Dragon for 4.75'' @ euro
          @ uni ''! (Target <= 5.0'' @ euro @ uni '')'']"
    by code_simp
  have len: "length (send_alerts ascii ?tp (Some (uni ''Shadow Dragon'')) ?fr) = length ?fr"
    by (rule alert_message_form [of ascii ?tp "[listing ''Shadow Dragon'' (19 / 4)]" ?fr
          "Some (uni ''Shadow Dragon'')", THEN mp, OF run, THEN conjunct2, THEN conjunct1])
  from run msg len show ?thesis by (intro conjI)
qed

text \<open>
  A listing matched by substring to the first of two targets, followed by a listing of the
  second target that is too dear: the message for the first shows the maximum of the second
  target, the value the variable \<open>matching_target\<close> had when the loop ended, and it starts
  with the emoji and \<open>FOUND:\<close>.
\<close>

theorem stale_target_in_message:
  "target_pets_of ascii [target ''Dragon'' 5, target ''Cat'' 1] []
     = Inr [(uni ''Dragon'', 5), (uni ''Cat'', 1)]
   \<and> filter_loop ascii [(uni ''Dragon'', 5), (uni ''Cat'', 1)]
        [listing ''Golden Dragon'' 4, listing ''Big Cat'' 3] ([], None)
     = Inr ([(uni ''Golden Dragon'', listing ''Golden Dragon'' 4)], Some (uni ''Cat''))
   \<and> match_target ascii [(uni ''Dragon'', 5), (uni ''Cat'', 1)] (uni ''Golden Dragon'')
     = Some (uni ''Dragon'')
   \<and> send_alerts ascii [(uni ''Dragon'', 5), (uni ''Cat'', 1)] (Some (uni ''Cat''))
        [(uni ''Golden Dragon'', listing ''Golden Dragon'' 4)]
     = [target_emoji @ uni '' FOUND: Golden Dragon for 4.00'' @ euro
          @ uni ''! (Target <= 1.0'' @ euro @ uni '')'']
   \<and> target_emoji @ uni '' FOUND: Golden Dragon for 4.00'' @ euro
          @ uni ''! (Target <= 1.0'' @ euro @ uni '')''
       \<noteq> uni ''Golden Dragon for 4.00'' @ euro @ uni ''! (Target <= 5.0'' @ euro @ uni '')''"
  by code_simp


end
